theory Spec2Isabelle
  imports Complex_Main "HOL-Library.Word"
begin

section \<open>Oscillator (src/src/Oscillator.cpp)\<close>

text \<open>
  The C++ \<^verbatim>\<open>double\<close> is modelled by \<^typ>\<open>real\<close>: \<^verbatim>\<open>pow(2.0, x)\<close> is \<open>2 powr x\<close>,
  \<^verbatim>\<open>fabs\<close> is \<open>abs\<close>, \<^verbatim>\<open>fmin\<close>/\<^verbatim>\<open>fmax\<close> are \<open>min\<close>/\<open>max\<close>. Rounding, infinities
  and NaN are outside the model.

  \<^verbatim>\<open>TWOPI\<close> and \<^verbatim>\<open>PI\<close> come from Definitions.hpp and the enum OscillatorWave from
  Oscillator.hpp; neither header is among the sources, so the constants are given their
  mathematical values and the enum the four cases of the switch in naiveWave.
\<close>

definition PI :: real where
  "PI = pi"

definition TWOPI :: real where
  "TWOPI = 2 * pi"

datatype OscillatorWave =
    OSCILLATOR_WAVE_SINE
  | OSCILLATOR_WAVE_SAW
  | OSCILLATOR_WAVE_SQUARE
  | OSCILLATOR_WAVE_TRIANGLE

text \<open>The private fields \<^verbatim>\<open>_mode\<close>, \<^verbatim>\<open>_freq\<close>, ... of class Oscillator.\<close>

record Oscillator =
  osc_mode :: OscillatorWave
  osc_freq :: real
  osc_pitch :: real
  osc_phase :: real
  osc_phaseIncrement :: real
  osc_muted :: bool
  osc_lastOut :: real
  osc_useNaive :: bool

text \<open>
  \<^verbatim>\<open>Oscillator::rate\<close> is a static \<^verbatim>\<open>unsigned long\<close> shared by all oscillators. It is
  passed explicitly to the functions that read it. \<^verbatim>\<open>setRate\<close> stores
  \<^verbatim>\<open>(double) rate\<close> back into the \<^verbatim>\<open>unsigned long\<close>, which is the identity for every
  rate below \<open>2 ^ 53\<close>.

  \<^verbatim>\<open>setIncrement\<close> divides by the rate. At rate 0 the C++ computes \<open>0 \<times> 2\<pi> / 0\<close>, a
  NaN, where the division of \<^typ>\<open>real\<close> gives 0: the definition stands for the code at
  positive rates only, and the theorems for C5 and C6 below assume one.
\<close>

definition initial_rate :: nat where
  "initial_rate = 44100"


definition setIncrement :: "nat \<Rightarrow> Oscillator \<Rightarrow> Oscillator" where
  "setIncrement rate osc =
     (let pitchModAsFrequency = 2 powr (\<bar>osc_pitch osc\<bar> * 14) - 1;
          pitchModAsFrequency =
            (if osc_pitch osc < 0 then - pitchModAsFrequency else pitchModAsFrequency);
          freq = min (max (osc_freq osc + pitchModAsFrequency) 0) (real rate / 2)
      in osc\<lparr>osc_phaseIncrement := freq * TWOPI / real rate\<rparr>)"

text \<open>The constructor: the member initialisers, then \<^verbatim>\<open>setIncrement()\<close>.\<close>

definition Oscillator_new :: "nat \<Rightarrow> Oscillator" where
  "Oscillator_new rate =
     setIncrement rate
       \<lparr>osc_mode = OSCILLATOR_WAVE_SQUARE, osc_freq = 440, osc_pitch = 0, osc_phase = 0,
        osc_phaseIncrement = 0, osc_muted = False, osc_lastOut = 0, osc_useNaive = False\<rparr>"


definition setFreq :: "nat \<Rightarrow> real \<Rightarrow> Oscillator \<Rightarrow> Oscillator" where
  "setFreq rate f osc = setIncrement rate (osc\<lparr>osc_freq := f\<rparr>)"

definition setPitch :: "nat \<Rightarrow> real \<Rightarrow> Oscillator \<Rightarrow> Oscillator" where
  "setPitch rate p osc = setIncrement rate (osc\<lparr>osc_pitch := p\<rparr>)"

definition mute :: "Oscillator \<Rightarrow> Oscillator" where
  "mute osc = osc\<lparr>osc_muted := True\<rparr>"

definition unmute :: "Oscillator \<Rightarrow> Oscillator" where
  "unmute osc = osc\<lparr>osc_muted := False\<rparr>"


definition polyBlep :: "Oscillator \<Rightarrow> real \<Rightarrow> real" where
  "polyBlep osc t =
     (let dt = osc_phaseIncrement osc / TWOPI
      in if t < dt then (let t = t / dt in t + t - t * t - 1)
         else if t > 1 - dt then (let t = (t - 1) / dt in t * t + t + t + 1)
         else 0)"

definition naiveWave :: "Oscillator \<Rightarrow> real" where
  "naiveWave osc =
     (case osc_mode osc of
        OSCILLATOR_WAVE_SINE \<Rightarrow> sin (osc_phase osc)
      | OSCILLATOR_WAVE_SAW \<Rightarrow> (2 * osc_phase osc / TWOPI) - 1
      | OSCILLATOR_WAVE_SQUARE \<Rightarrow> (if osc_phase osc < PI then 1 else - 1)
      | OSCILLATOR_WAVE_TRIANGLE \<Rightarrow>
          (let v = - 1 + (2 * osc_phase osc / TWOPI) in 2 * (\<bar>v\<bar> - 0.5)))"

text \<open>C's \<^verbatim>\<open>fmod\<close>: the remainder of the division truncated towards zero.\<close>

definition fmod :: "real \<Rightarrow> real \<Rightarrow> real" where
  "fmod x y =
     (let q = x / y
      in x - y * of_int (if 0 \<le> q then \<lfloor>q\<rfloor> else \<lceil>q\<rceil>))"

text \<open>The loop \<^verbatim>\<open>while (_phase >= TWOPI) _phase -= TWOPI;\<close> at the end of next().\<close>

function wrap_phase :: "real \<Rightarrow> real" where
  "wrap_phase p = (if p \<ge> TWOPI then wrap_phase (p - TWOPI) else p)"
  by pat_completeness auto
termination
proof (relation "measure (\<lambda>p. nat \<lceil>p / TWOPI\<rceil>)")
  show "wf (measure (\<lambda>p. nat \<lceil>p / TWOPI\<rceil>))"
    by simp
next
  fix p :: real
  assume ge: "TWOPI \<le> p"
  have pos: "0 < TWOPI"
    by (simp add: TWOPI_def)
  have "(p - TWOPI) / TWOPI = p / TWOPI - 1"
    using pos by (simp add: diff_divide_distrib)
  then have c: "\<lceil>(p - TWOPI) / TWOPI\<rceil> = \<lceil>p / TWOPI\<rceil> - 1"
    by simp
  have "1 \<le> p / TWOPI"
    using ge pos by simp
  then have "1 \<le> \<lceil>p / TWOPI\<rceil>"
    by linarith
  with c show "(p - TWOPI, p) \<in> measure (\<lambda>p. nat \<lceil>p / TWOPI\<rceil>)"
    by simp
qed

declare wrap_phase.simps [simp del]

text \<open>The code from the label \<^verbatim>\<open>increment:\<close> to the end of next().\<close>

definition increment :: "real \<Rightarrow> Oscillator \<Rightarrow> real \<times> Oscillator" where
  "increment v osc =
     (v, osc\<lparr>osc_phase := wrap_phase (osc_phase osc + osc_phaseIncrement osc)\<rparr>)"

text \<open>
  \<^verbatim>\<open>Oscillator::next\<close> returns the sample and the updated object. The muted branch is
  the source's \<^verbatim>\<open>if (_muted) return value;\<close>, taken before anything is written.
\<close>

definition Oscillator_next :: "Oscillator \<Rightarrow> real \<times> Oscillator" where
  "Oscillator_next osc =
     (let t = osc_phase osc / TWOPI
      in if osc_muted osc then (0, osc)
         else if osc_useNaive osc then increment (naiveWave osc) osc
         else if osc_mode osc = OSCILLATOR_WAVE_SINE then increment (naiveWave osc) osc
         else if osc_mode osc = OSCILLATOR_WAVE_SAW
           then increment (naiveWave osc - polyBlep osc t) osc
         else
           (let v = naiveWave osc + polyBlep osc t - polyBlep osc (fmod (t + 0.5) 1)
            in if osc_mode osc = OSCILLATOR_WAVE_TRIANGLE
               then (let v = osc_phaseIncrement osc * v
                               + (1 - osc_phaseIncrement osc) * osc_lastOut osc
                     in increment v (osc\<lparr>osc_lastOut := v\<rparr>))
               else increment v osc))"





section \<open>Errors\<close>

text \<open>
  How a call can fail to return normally: \<^verbatim>\<open>exit(status)\<close>, a failed \<^verbatim>\<open>assert\<close>,
  undefined behaviour of C++ (a division by zero on \<^verbatim>\<open>size_t\<close>, an access outside a
  buffer), and, for code that waits on the hardware, the end of the modelled hardware
  script before the call has returned.
\<close>

datatype error =
    Exit int
  | AssertionFailed
  | UndefinedBehaviour
  | Starved

text \<open>The values of errno.h on Linux, and \<^verbatim>\<open>EXIT_FAILURE\<close> of stdlib.h.\<close>

definition EAGAIN :: int where
  "EAGAIN = 11"

definition EPIPE :: int where
  "EPIPE = 32"

definition ESTRPIPE :: int where
  "ESTRPIPE = 86"

definition EXIT_FAILURE :: int where
  "EXIT_FAILURE = 1"

section \<open>MidiController (src/src/MidiController.cpp)\<close>

datatype MidiEventType =
    MIDI_NOTEON
  | MIDI_NOTEOFF
  | MIDI_CONTROL
  | MIDI_PITCHBEND
  | MIDI_UNHANDLED
  | MIDI_EMPTY

text \<open>
  Modelled from the spec: class MidiEvent is declared in MidiController.hpp, which is not
  among the sources. The spec gives it the fields \<open>{type, note, control, velocity, pitch}\<close>;
  the constructor call \<^verbatim>\<open>MidiEvent(type, note, control, velocity, pitch)\<close> at the end of
  \<^verbatim>\<open>_midi_event_process\<close> gives their types: an \<^verbatim>\<open>int\<close> and three \<^verbatim>\<open>double\<close>.
\<close>

record MidiEvent =
  ev_type :: MidiEventType
  ev_note :: int
  ev_control :: real
  ev_velocity :: real
  ev_pitch :: real

text \<open>
  Modelled from the spec: the one-argument constructor \<^verbatim>\<open>MidiEvent(MIDI_EMPTY)\<close> used by
  nextEvent. Its default arguments are in the missing header; they are taken as zero,
  and process() returns on \<^verbatim>\<open>MIDI_EMPTY\<close> before reading any of them.
\<close>

definition MidiEvent_of_type :: "MidiEventType \<Rightarrow> MidiEvent" where
  "MidiEvent_of_type t =
     \<lparr>ev_type = t, ev_note = 0, ev_control = 0, ev_velocity = 0, ev_pitch = 0\<rparr>"

text \<open>
  ALSA's \<^verbatim>\<open>snd_seq_event_t\<close>, as far as \<^verbatim>\<open>_midi_event_process\<close> reads it: the type tag
  and the members \<^verbatim>\<open>data.note\<close> (\<^verbatim>\<open>unsigned char note, velocity\<close>) and \<^verbatim>\<open>data.control\<close>
  (\<^verbatim>\<open>unsigned int param; signed int value\<close>) of the union.
\<close>

datatype snd_seq_event_type =
    SND_SEQ_EVENT_PITCHBEND
  | SND_SEQ_EVENT_CONTROLLER
  | SND_SEQ_EVENT_NOTEON
  | SND_SEQ_EVENT_NOTEOFF
  | SND_SEQ_EVENT_OTHER nat

record snd_seq_event =
  seq_type :: snd_seq_event_type
  note_note :: "8 word"
  note_velocity :: "8 word"
  control_param :: "32 word"
  control_value :: "32 word"

text \<open>\<^verbatim>\<open>_midi_event_process\<close>: the locals start as \<^verbatim>\<open>MIDI_UNHANDLED\<close>, 0, 0.0, 0.0, 0.0.\<close>

definition midi_event_process :: "snd_seq_event \<Rightarrow> MidiEvent" where
  "midi_event_process ev =
     (case seq_type ev of
        SND_SEQ_EVENT_PITCHBEND \<Rightarrow>
          \<lparr>ev_type = MIDI_PITCHBEND, ev_note = 0, ev_control = 0, ev_velocity = 0,
           ev_pitch = real_of_int (sint (control_value ev)) / 8192\<rparr>
      | SND_SEQ_EVENT_CONTROLLER \<Rightarrow>
          \<lparr>ev_type = MIDI_CONTROL, ev_note = sint (control_param ev),
           ev_control = real_of_int (sint (control_value ev)) / 127, ev_velocity = 0,
           ev_pitch = 0\<rparr>
      | SND_SEQ_EVENT_NOTEON \<Rightarrow>
          (if unat (note_velocity ev) > 0
           then \<lparr>ev_type = MIDI_NOTEON, ev_note = uint (note_note ev), ev_control = 0,
                 ev_velocity = real (unat (note_velocity ev)) / 127, ev_pitch = 0\<rparr>
           else \<lparr>ev_type = MIDI_UNHANDLED, ev_note = 0, ev_control = 0, ev_velocity = 0,
                 ev_pitch = 0\<rparr>)
      | SND_SEQ_EVENT_NOTEOFF \<Rightarrow>
          \<lparr>ev_type = MIDI_NOTEOFF, ev_note = uint (note_note ev), ev_control = 0,
           ev_velocity = 0, ev_pitch = 0\<rparr>
      | SND_SEQ_EVENT_OTHER _ \<Rightarrow>
          \<lparr>ev_type = MIDI_UNHANDLED, ev_note = 0, ev_control = 0, ev_velocity = 0,
           ev_pitch = 0\<rparr>)"

text \<open>
  The fields of class MidiController that process(), input() and nextEvent() touch:
  \<^verbatim>\<open>_frequency\<close>, \<^verbatim>\<open>_velocity\<close>, \<^verbatim>\<open>_pitch\<close>, \<^verbatim>\<open>_note\<close>, the map \<^verbatim>\<open>_notes\<close> and the queue
  \<^verbatim>\<open>_queue\<close> (front of the queue = head of the list). The mutex only serialises the
  queue operations, each of which is one atomic step here.
\<close>

record MidiController =
  mc_frequency :: real
  mc_velocity :: real
  mc_pitch :: real
  mc_note :: int
  mc_notes :: "int \<rightharpoonup> bool"
  mc_queue :: "MidiEvent list"

text \<open>
  The constructor initialises \<^verbatim>\<open>_frequency\<close>, \<^verbatim>\<open>_velocity\<close> and \<^verbatim>\<open>_pitch\<close>; \<^verbatim>\<open>_note\<close> is
  left uninitialised, so its first value is a parameter.
\<close>

definition MidiController_new :: "int \<Rightarrow> MidiController" where
  "MidiController_new n =
     \<lparr>mc_frequency = - 1, mc_velocity = 0, mc_pitch = 0, mc_note = n,
      mc_notes = Map.empty, mc_queue = []\<rparr>"

definition MidiController_frequency :: "MidiController \<Rightarrow> real" where
  "MidiController_frequency mc = mc_frequency mc"

definition MidiController_velocity :: "MidiController \<Rightarrow> real" where
  "MidiController_velocity mc = mc_velocity mc"

definition MidiController_pitch :: "MidiController \<Rightarrow> real" where
  "MidiController_pitch mc = mc_pitch mc"

definition MidiController_note :: "MidiController \<Rightarrow> int" where
  "MidiController_note mc = mc_note mc"

definition MidiController_noteOn :: "MidiController \<Rightarrow> int \<Rightarrow> bool" where
  "MidiController_noteOn mc n = (case mc_notes mc n of None \<Rightarrow> False | Some b \<Rightarrow> b)"

definition noteToFrequency :: "int \<Rightarrow> real" where
  "noteToFrequency n = 440 * 2 powr ((real_of_int n - 69) / 12)"

definition MidiController_input :: "MidiEvent \<Rightarrow> MidiController \<Rightarrow> MidiController" where
  "MidiController_input event mc = mc\<lparr>mc_queue := mc_queue mc @ [event]\<rparr>"

definition MidiController_nextEvent :: "MidiController \<Rightarrow> MidiEvent \<times> MidiController" where
  "MidiController_nextEvent mc =
     (case mc_queue mc of
        [] \<Rightarrow> (MidiEvent_of_type MIDI_EMPTY, mc)
      | e # q \<Rightarrow> (e, mc\<lparr>mc_queue := q\<rparr>))"

text \<open>
  \<^verbatim>\<open>MidiController::process\<close>. The test \<^verbatim>\<open>e.velocity\<close> of the \<^verbatim>\<open>MIDI_NOTEON\<close> case is
  true for every velocity other than 0.
\<close>

definition MidiController_process :: "MidiController \<Rightarrow> MidiController" where
  "MidiController_process mc0 =
     (let mc = mc0\<lparr>mc_note := - 1\<rparr>;
          (e, mc) = MidiController_nextEvent mc
      in if ev_type e = MIDI_EMPTY then mc
         else
           (case ev_type e of
              MIDI_NOTEON \<Rightarrow>
                (if ev_type e = MIDI_NOTEON \<and> ev_velocity e \<noteq> 0
                 then mc\<lparr>mc_note := ev_note e,
                         mc_frequency := noteToFrequency (ev_note e),
                         mc_velocity := ev_velocity e,
                         mc_notes := (mc_notes mc)(ev_note e \<mapsto> True)\<rparr>
                 else mc)
            | MIDI_NOTEOFF \<Rightarrow>
                mc\<lparr>mc_notes := (mc_notes mc)(ev_note e \<mapsto> False),
                    mc_frequency := - 1,
                    mc_velocity := 0\<rparr>
            | MIDI_PITCHBEND \<Rightarrow> mc\<lparr>mc_pitch := ev_pitch e\<rparr>
            | _ \<Rightarrow> mc))"

subsection \<open>The capture thread\<close>

text \<open>
  One call of \<^verbatim>\<open>snd_seq_event_input\<close> is modelled by what it gives back: the return
  value \<open>r\<close>, the event it stored (read only when \<open>r \<ge> 0\<close>), and the number that
  \<^verbatim>\<open>snd_seq_event_input_pending\<close> would report right after it. The sequencer is the list
  of these for the calls still to come; once the list is used up every further call has
  no data (\<^verbatim>\<open>-EAGAIN\<close>).
\<close>

record seq_read =
  read_r :: int
  read_event :: snd_seq_event
  read_pending :: int

text \<open>
  The \<^verbatim>\<open>do ... while (events_pending > 0)\<close> loop of \<^verbatim>\<open>_midi_event_thread\<close>, with the
  locals \<^verbatim>\<open>set_pending\<close> and \<^verbatim>\<open>events_pending\<close>. It returns the rest of the sequencer
  and the controller, or the \<^verbatim>\<open>exit(1)\<close> of a failed read.
\<close>

fun drain_events ::
  "bool \<Rightarrow> int \<Rightarrow> seq_read list \<Rightarrow> MidiController
     \<Rightarrow> error + seq_read list \<times> MidiController" where
  "drain_events set_pending events_pending [] mc = Inr ([], mc)"
| "drain_events set_pending events_pending (rd # sequencer) mc =
     (if read_r rd = - EAGAIN then Inr (sequencer, mc)
      else if read_r rd < 0 then Inl (Exit 1)
      else
        (let events_pending = (if \<not> set_pending then read_pending rd else events_pending);
             mc = MidiController_input (midi_event_process (read_event rd)) mc;
             events_pending = events_pending - 1
         in if events_pending > 0 then drain_events True events_pending sequencer mc
            else Inr (sequencer, mc)))"

text \<open>
  The outer loop \<^verbatim>\<open>while (*collecting_events)\<close>: the first argument counts how many
  more times the flag is read as true before the destructor clears it.
\<close>

fun midi_event_thread ::
  "nat \<Rightarrow> seq_read list \<Rightarrow> MidiController \<Rightarrow> error + MidiController" where
  "midi_event_thread 0 sequencer mc = Inr mc"
| "midi_event_thread (Suc n) sequencer mc =
     (case drain_events False 0 sequencer mc of
        Inl e \<Rightarrow> Inl e
      | Inr (sequencer', mc') \<Rightarrow> midi_event_thread n sequencer' mc')"

text \<open>
  What the thread has enqueued once it has gone through the reads \<open>sq\<close>: the
  normalisation of the event of every read that returned \<open>r \<ge> 0\<close>, in order. A read is
  fatal when it returns a negative value other than \<^verbatim>\<open>-EAGAIN\<close>.
\<close>

definition enqueued :: "seq_read list \<Rightarrow> MidiEvent list" where
  "enqueued sq =
     map (\<lambda>rd. midi_event_process (read_event rd)) (filter (\<lambda>rd. 0 \<le> read_r rd) sq)"

definition no_fatal_read :: "seq_read list \<Rightarrow> bool" where
  "no_fatal_read sq = list_all (\<lambda>rd. read_r rd = - EAGAIN \<or> 0 \<le> read_r rd) sq"

section \<open>AudioDevice (src/src/AudioDevice.cpp, src/AudioDevice.hpp)\<close>

text \<open>
  The static constants of AudioDevice.cpp; \<open>format_width\<close> is what ALSA's
  \<^verbatim>\<open>snd_pcm_format_physical_width\<close> gives for \<^verbatim>\<open>SND_PCM_FORMAT_S16\<close>.
\<close>

definition channels :: nat where
  "channels = 2"

definition format_width :: nat where
  "format_width = 16"

type_synonym int16_t = "16 word"

text \<open>
  The PCM handle. ALSA is outside the program, so the device is a script: the values that
  the coming calls into ALSA will return, in order, and a log of the calls made so far.
  A write logs the frames handed over (\<open>count\<close> frames of \<open>channels\<close> samples, read from
  \<open>ptr\<close>) and the count.
\<close>

datatype pcm_call =
    snd_pcm_writei "int16_t list" int
  | snd_pcm_prepare
  | snd_pcm_resume

record snd_pcm =
  responses :: "int list"
  calls :: "pcm_call list"

definition alsa :: "pcm_call \<Rightarrow> snd_pcm \<Rightarrow> (int \<times> snd_pcm) option" where
  "alsa c handle =
     (case responses handle of
        [] \<Rightarrow> None
      | r # rs \<Rightarrow> Some (r, handle\<lparr>responses := rs, calls := calls handle @ [c]\<rparr>))"

text \<open>The fields of class AudioDevice; \<open>device_handle\<close> is the PCM above.\<close>

record AudioDevice =
  samples :: "int16_t list"
  samples_bytes :: nat
  num_samples :: nat
  buffer_size :: nat
  period_size :: nat
  device_handle :: snd_pcm

text \<open>
  The constructor, after the negotiation with the hardware has granted a buffer size and
  a period size: \<^verbatim>\<open>size_t\<close> arithmetic is modulo \<open>2 ^ 64\<close>, \<^verbatim>\<open>sizeof(int16_t)\<close> is 2, and
  \<^verbatim>\<open>malloc\<close> returns \<open>samples_bytes\<close> bytes of unspecified content \<open>mem\<close>.
\<close>

definition AudioDevice_new ::
  "nat \<Rightarrow> nat \<Rightarrow> (nat \<Rightarrow> int16_t) \<Rightarrow> snd_pcm \<Rightarrow> AudioDevice" where
  "AudioDevice_new granted_buffer granted_period mem handle =
     (let bytes = ((granted_period * channels * format_width) mod 2 ^ 64) div 8;
          n = bytes div 2
      in \<lparr>samples = map mem [0..<n], samples_bytes = bytes, num_samples = n,
          buffer_size = granted_buffer, period_size = granted_period,
          device_handle = handle\<rparr>)"

definition getPeriodSamples :: "AudioDevice \<Rightarrow> nat" where
  "getPeriodSamples dev = num_samples dev"

definition getPeriodSize :: "AudioDevice \<Rightarrow> nat" where
  "getPeriodSize dev = period_size dev"

subsection \<open>Recovery and the single-period write\<close>

text \<open>
  The loop \<^verbatim>\<open>while ((err = snd_pcm_resume(handle)) == -EAGAIN) sleep(1);\<close> of
  xrun_recovery. \<open>None\<close>: the script ended before the loop did.
\<close>

function resume_loop :: "snd_pcm \<Rightarrow> (int \<times> snd_pcm) option" where
  "resume_loop handle =
     (case alsa snd_pcm_resume handle of
        None \<Rightarrow> None
      | Some (err, handle') \<Rightarrow>
          if err = - EAGAIN then resume_loop handle' else Some (err, handle'))"
  by pat_completeness auto
termination
  by (relation "measure (\<lambda>h. length (responses h))")
     (auto simp: alsa_def split: list.splits)

declare resume_loop.simps [simp del]

text \<open>
  \<^verbatim>\<open>xrun_recovery\<close>: the value returned and the handle afterwards. A failed
  \<^verbatim>\<open>snd_pcm_prepare\<close> is only printed; both recovery branches return 0.
\<close>

definition xrun_recovery :: "snd_pcm \<Rightarrow> int \<Rightarrow> (int \<times> snd_pcm) option" where
  "xrun_recovery handle err =
     (if err = - EPIPE then
        (case alsa snd_pcm_prepare handle of
           None \<Rightarrow> None
         | Some (err', handle') \<Rightarrow> Some (0, handle'))
      else if err = - ESTRPIPE then
        (case resume_loop handle of
           None \<Rightarrow> None
         | Some (err', handle') \<Rightarrow>
             if err' < 0 then
               (case alsa snd_pcm_prepare handle' of
                  None \<Rightarrow> None
                | Some (err'', handle'') \<Rightarrow> Some (0, handle''))
             else Some (0, handle'))
      else Some (err, handle))"

text \<open>The conversion \<^verbatim>\<open>int count = this->period_size\<close> from \<^verbatim>\<open>size_t\<close>.\<close>

definition int_of_size_t :: "nat \<Rightarrow> int" where
  "int_of_size_t n = sint (word_of_nat n :: 32 word)"

text \<open>
  The \<^verbatim>\<open>while (count > 0)\<close> loop of playSamples over the sample buffer \<open>smp\<close>; \<open>ptr\<close> is
  the offset of the write pointer in it. The result is the handle after the loop, or the
  reason the call did not return together with the handle at that point.
\<close>

function playSamples_loop ::
  "int16_t list \<Rightarrow> snd_pcm \<Rightarrow> nat \<Rightarrow> int \<Rightarrow> error \<times> snd_pcm + snd_pcm" where
  "playSamples_loop smp handle ptr count =
     (if count > 0 then
        (case alsa (snd_pcm_writei (take (nat count * channels) (drop ptr smp)) count) handle of
           None \<Rightarrow> Inl (Starved, handle)
         | Some (frames, handle') \<Rightarrow>
             if frames = - EAGAIN then playSamples_loop smp handle' ptr count
             else if frames < 0 then
               (case xrun_recovery handle' frames of
                  None \<Rightarrow> Inl (Starved, handle')
                | Some (r, handle'') \<Rightarrow>
                    if r < 0 then Inl (Exit EXIT_FAILURE, handle'') else Inr handle'')
             else playSamples_loop smp handle' (ptr + nat frames * channels) (count - frames))
      else Inr handle)"
  by pat_completeness auto
termination
  by (relation "measure (\<lambda>(smp, h, ptr, count). length (responses h))")
     (auto simp: alsa_def split: list.splits)

declare playSamples_loop.simps [simp del]

definition AudioDevice_playSamples :: "AudioDevice \<Rightarrow> error \<times> AudioDevice + AudioDevice" where
  "AudioDevice_playSamples dev =
     (case playSamples_loop (samples dev) (device_handle dev) 0
             (int_of_size_t (period_size dev)) of
        Inl (e, handle) \<Rightarrow> Inl (e, dev\<lparr>device_handle := handle\<rparr>)
      | Inr handle \<Rightarrow> Inr (dev\<lparr>device_handle := handle\<rparr>))"

subsection \<open>play\<close>

text \<open>
  The inner loop \<^verbatim>\<open>for (i = 0; i < num_samples; i++) samples[i] = buffer[index + i];\<close>.
  \<open>None\<close>: an index outside \<open>buffer\<close> or outside the sample buffer, which C++ leaves
  undefined.
\<close>

function copy_samples ::
  "int16_t list \<Rightarrow> nat \<Rightarrow> nat \<Rightarrow> nat \<Rightarrow> int16_t list \<Rightarrow> int16_t list option" where
  "copy_samples buffer index n i smp =
     (if i < n then
        (if index + i < length buffer \<and> i < length smp
         then copy_samples buffer index n (Suc i) (smp[i := buffer ! (index + i)])
         else None)
      else Some smp)"
  by pat_completeness auto
termination
  by (relation "measure (\<lambda>(buffer, index, n, i, smp). n - i)") auto

declare copy_samples.simps [simp del]

text \<open>
  The outer loop \<^verbatim>\<open>for (index = 0; index < length; index += stride)\<close> of both versions of
  play: the one of AudioDevice.cpp steps by \<open>num_samples\<close>, the template of
  AudioDevice.hpp by \<open>period_size\<close>. Both have divided by their stride in the assertion
  before the loop, so the loop starts with a positive stride only; \<open>index\<close> never passes
  \<open>length\<close>, so \<^verbatim>\<open>size_t\<close> does not wrap.
\<close>

function play_loop ::
  "nat \<Rightarrow> int16_t list \<Rightarrow> nat \<Rightarrow> nat \<Rightarrow> AudioDevice \<Rightarrow> error \<times> AudioDevice + AudioDevice" where
  "play_loop stride buffer len index dev =
     (if index < len \<and> 0 < stride then
        (case copy_samples buffer index (num_samples dev) 0 (samples dev) of
           None \<Rightarrow> Inl (UndefinedBehaviour, dev)
         | Some smp \<Rightarrow>
             (case AudioDevice_playSamples (dev\<lparr>samples := smp\<rparr>) of
                Inl e \<Rightarrow> Inl e
              | Inr dev' \<Rightarrow> play_loop stride buffer len (index + stride) dev'))
      else Inr dev)"
  by pat_completeness auto
termination
  by (relation "measure (\<lambda>(stride, buffer, len, index, dev). len - index)") auto

declare play_loop.simps [simp del]

text \<open>
  \<^verbatim>\<open>AudioDevice::play\<close> of AudioDevice.cpp, with the assertion compiled in (no
  \<^verbatim>\<open>NDEBUG\<close>): a failed \<^verbatim>\<open>assert\<close> aborts before the loop. \<^verbatim>\<open>length % num_samples\<close>
  with \<open>num_samples = 0\<close> is a division by zero.
\<close>

definition AudioDevice_play ::
  "AudioDevice \<Rightarrow> int16_t list \<Rightarrow> nat \<Rightarrow> error \<times> AudioDevice + AudioDevice" where
  "AudioDevice_play dev buffer len =
     (if num_samples dev = 0 then Inl (UndefinedBehaviour, dev)
      else if len mod num_samples dev \<noteq> 0 then Inl (AssertionFailed, dev)
      else play_loop (num_samples dev) buffer len 0 dev)"

text \<open>The template \<^verbatim>\<open>play\<close> of AudioDevice.hpp, at \<^verbatim>\<open>T = int16_t\<close>.\<close>

definition AudioDevice_play_hpp ::
  "AudioDevice \<Rightarrow> int16_t list \<Rightarrow> nat \<Rightarrow> error \<times> AudioDevice + AudioDevice" where
  "AudioDevice_play_hpp dev buffer len =
     (if period_size dev = 0 then Inl (UndefinedBehaviour, dev)
      else if len mod period_size dev \<noteq> 0 then Inl (AssertionFailed, dev)
      else play_loop (period_size dev) buffer len 0 dev)"

section \<open>Notions used in the statements\<close>

text \<open>
  The formula of the specification for the phase increment:
  \<open>2\<pi> \<times> clamp(freq + pitchOffset, 0, rate/2) / rate\<close> with
  \<open>pitchOffset = sign(pitch) \<times> (2^(|pitch| \<times> 14) - 1)\<close>.
\<close>

definition clamp :: "real \<Rightarrow> real \<Rightarrow> real \<Rightarrow> real" where
  "clamp x lo hi = (if x < lo then lo else if hi < x then hi else x)"

definition pitchOffset :: "real \<Rightarrow> real" where
  "pitchOffset p = sgn p * (2 powr (\<bar>p\<bar> * 14) - 1)"


text \<open>Raw and normalised events used as concrete inputs.\<close>

definition note_on_zero :: snd_seq_event where
  "note_on_zero =
     \<lparr>seq_type = SND_SEQ_EVENT_NOTEON, note_note = 60, note_velocity = 0,
      control_param = 0, control_value = 0\<rparr>"

definition unhandled_event :: MidiEvent where
  "unhandled_event =
     \<lparr>ev_type = MIDI_UNHANDLED, ev_note = 0, ev_control = 0, ev_velocity = 0, ev_pitch = 0\<rparr>"

definition note_off_60 :: MidiEvent where
  "note_off_60 =
     \<lparr>ev_type = MIDI_NOTEOFF, ev_note = 60, ev_control = 0, ev_velocity = 0, ev_pitch = 0\<rparr>"

definition note_on_69 :: MidiEvent where
  "note_on_69 =
     \<lparr>ev_type = MIDI_NOTEON, ev_note = 69, ev_control = 0, ev_velocity = 100 / 127,
      ev_pitch = 0\<rparr>"

text \<open>
  The specification's reading of play: for each period-sized chunk, copy it into the
  internal buffer and call the single-period write; a fatal write ends the sequence.
\<close>

fun play_periods ::
  "AudioDevice \<Rightarrow> int16_t list list \<Rightarrow> error \<times> AudioDevice + AudioDevice" where
  "play_periods dev [] = Inr dev"
| "play_periods dev (p # ps) =
     (case AudioDevice_playSamples (dev\<lparr>samples := p\<rparr>) of
        Inl e \<Rightarrow> Inl e
      | Inr dev' \<Rightarrow> play_periods dev' ps)"

definition periods :: "nat \<Rightarrow> int16_t list \<Rightarrow> nat \<Rightarrow> int16_t list list" where
  "periods n buffer k = map (\<lambda>j. take n (drop (j * n) buffer)) [0..<k]"

text \<open>
  The frames accepted by a run of write results that are each \<^verbatim>\<open>-EAGAIN\<close> or a frame
  count, and the log entries that are writes.
\<close>

definition written :: "int list \<Rightarrow> int" where
  "written fs = sum_list (map (\<lambda>f. if f = - EAGAIN then 0 else f) fs)"

fun is_writei :: "pcm_call \<Rightarrow> bool" where
  "is_writei (snd_pcm_writei _ _) = True"
| "is_writei _ = False"

text \<open>Concrete devices and buffers: \<open>quiet\<close> is a zeroed allocation.\<close>

definition quiet :: "nat \<Rightarrow> int16_t" where
  "quiet i = 0"

definition small_device :: "int list \<Rightarrow> AudioDevice" where
  "small_device rs = AudioDevice_new 1024 2 quiet \<lparr>responses = rs, calls = []\<rparr>"

definition stereo_device :: AudioDevice where
  "stereo_device = AudioDevice_new 1024 64 quiet \<lparr>responses = [64, 64], calls = []\<rparr>"

definition ramp :: "int16_t list" where
  "ramp = map word_of_nat [0..<128]"

section \<open>Oscillator: phase and phase increment\<close>

lemma TWOPI_pos: "0 < TWOPI"
  by (simp add: TWOPI_def)

lemma wrap_phase_small: "p < TWOPI \<Longrightarrow> wrap_phase p = p"
  by (simp add: wrap_phase.simps)


lemma setIncrement_nonneg: "0 \<le> osc_phaseIncrement (setIncrement rate osc)"
  by (simp add: setIncrement_def Let_def TWOPI_def)

lemma setIncrement_clamp:
  "osc_phaseIncrement (setIncrement rate osc)
     = 2 * pi * clamp (osc_freq osc + pitchOffset (osc_pitch osc)) 0 (real rate / 2) / real rate"
  by (auto simp add: setIncrement_def Let_def clamp_def pitchOffset_def TWOPI_def sgn_real_def
        min_def max_def)

lemma clamp_range: "lo \<le> hi \<Longrightarrow> lo \<le> clamp x lo hi \<and> clamp x lo hi \<le> hi"
  by (simp add: clamp_def)

lemma half_rate_le_pi:
  assumes "0 < r" and "c \<le> r / 2"
  shows "2 * pi * c / r \<le> pi"
proof -
  have "pi * (2 * c) \<le> pi * r"
    using assms(2) by (intro mult_left_mono) simp_all
  then show ?thesis
    using assms(1) by (simp add: pos_divide_le_eq mult.commute mult.left_commute)
qed

lemma setIncrement_le_pi:
  assumes "0 < rate"
  shows "osc_phaseIncrement (setIncrement rate osc) \<le> pi"
  using half_rate_le_pi[of "real rate" "clamp (osc_freq osc + pitchOffset (osc_pitch osc)) 0 (real rate / 2)"]
    clamp_range[of 0 "real rate / 2" "osc_freq osc + pitchOffset (osc_pitch osc)"] assms
  by (simp add: setIncrement_clamp)


lemma Oscillator_new_44100:
  "osc_phaseIncrement (Oscillator_new 44100) = 440 * TWOPI / 44100"
  "osc_phase (Oscillator_new 44100) = 0"
  "\<not> osc_muted (Oscillator_new 44100)"
  by (simp_all add: Oscillator_new_def setIncrement_def)

lemma first_phase: "wrap_phase (440 * TWOPI / 44100) = 440 * TWOPI / 44100"
  using TWOPI_pos by (intro wrap_phase_small) simp





text \<open>
  C1, as the code has it: a muted next() returns 0 and leaves the oscillator as it was,
  phase included (the return comes before the increment); only an unmuted next()
  advances the phase by phaseIncrement, wrapped below \<open>2\<pi>\<close>.
\<close>

theorem muted_next_keeps_phase:
  "(osc_muted osc \<longrightarrow> Oscillator_next osc = (0, osc))
   \<and> (\<not> osc_muted osc \<longrightarrow>
        osc_phase (snd (Oscillator_next osc))
          = wrap_phase (osc_phase osc + osc_phaseIncrement osc))"
  by (simp add: Oscillator_next_def Let_def increment_def)

text \<open>
  The theorem at a new oscillator at 44100 Hz, muted and not: the muted call returns the
  object unchanged, the unmuted one moves the phase from 0 to \<open>440 \<times> 2\<pi> / 44100\<close>.
\<close>

theorem muted_next_keeps_phase_witness:
  "osc_muted (mute (Oscillator_new 44100))
   \<and> Oscillator_next (mute (Oscillator_new 44100)) = (0, mute (Oscillator_new 44100))
   \<and> \<not> osc_muted (Oscillator_new 44100)
   \<and> osc_phase (snd (Oscillator_next (Oscillator_new 44100))) = 440 * TWOPI / 44100"
proof -
  have m: "osc_muted (mute (Oscillator_new 44100))"
    by (simp add: mute_def)
  have u: "\<not> osc_muted (Oscillator_new 44100)"
    by (rule Oscillator_new_44100)
  from m u muted_next_keeps_phase[of "mute (Oscillator_new 44100)"]
    muted_next_keeps_phase[of "Oscillator_new 44100"] first_phase
  show ?thesis
    by (simp add: Oscillator_new_44100)
qed

text \<open>
  C1 as stated fails: on a new oscillator at 44100 Hz that has been muted, next()
  returns 0 and the phase stays 0, while the same call on the unmuted oscillator moves
  the phase to \<open>440 \<times> 2\<pi> / 44100\<close>.
\<close>

theorem muted_next_counterexample:
  "osc_muted (mute (Oscillator_new 44100))
   \<and> fst (Oscillator_next (mute (Oscillator_new 44100))) = 0
   \<and> osc_phase (snd (Oscillator_next (mute (Oscillator_new 44100)))) = 0
   \<and> osc_phase (snd (Oscillator_next (unmute (mute (Oscillator_new 44100)))))
       = 440 * TWOPI / 44100
   \<and> osc_phase (snd (Oscillator_next (mute (Oscillator_new 44100))))
       \<noteq> osc_phase (snd (Oscillator_next (unmute (mute (Oscillator_new 44100)))))"
  using TWOPI_pos first_phase
  by (simp add: Oscillator_next_def Let_def increment_def mute_def unmute_def
        Oscillator_new_44100)

text \<open>
  C5: at every positive sample rate, for every frequency and every pitch bend, setFreq
  and setPitch recompute phaseIncrement at once, as
  \<open>2\<pi> \<times> clamp(freq + pitchOffset, 0, rate/2) / rate\<close> with
  \<open>pitchOffset = sign(pitch) \<times> (2^(|pitch| \<times> 14) - 1)\<close>; the clamped frequency lies
  between 0 and the Nyquist limit rate/2, so the increment lies between 0 and \<open>\<pi>\<close>.
  (The rate is positive: at rate 0 the C++ divides zero by zero.)
\<close>

theorem setFreq_setPitch_increment:
  assumes "0 < rate"
  shows "osc_phaseIncrement (setFreq rate f osc)
     = 2 * pi * clamp (f + pitchOffset (osc_pitch osc)) 0 (real rate / 2) / real rate
   \<and> osc_phaseIncrement (setPitch rate p osc)
     = 2 * pi * clamp (osc_freq osc + pitchOffset p) 0 (real rate / 2) / real rate
   \<and> 0 \<le> clamp (f + pitchOffset (osc_pitch osc)) 0 (real rate / 2)
   \<and> clamp (f + pitchOffset (osc_pitch osc)) 0 (real rate / 2) \<le> real rate / 2
   \<and> 0 \<le> clamp (osc_freq osc + pitchOffset p) 0 (real rate / 2)
   \<and> clamp (osc_freq osc + pitchOffset p) 0 (real rate / 2) \<le> real rate / 2
   \<and> 0 \<le> osc_phaseIncrement (setFreq rate f osc)
   \<and> 0 \<le> osc_phaseIncrement (setPitch rate p osc)
   \<and> osc_phaseIncrement (setFreq rate f osc) \<le> pi
   \<and> osc_phaseIncrement (setPitch rate p osc) \<le> pi"
proof -
  have eqs:
    "osc_phaseIncrement (setFreq rate f osc)
       = 2 * pi * clamp (f + pitchOffset (osc_pitch osc)) 0 (real rate / 2) / real rate"
    "osc_phaseIncrement (setPitch rate p osc)
       = 2 * pi * clamp (osc_freq osc + pitchOffset p) 0 (real rate / 2) / real rate"
    using setIncrement_clamp[of rate "osc\<lparr>osc_freq := f\<rparr>"]
      setIncrement_clamp[of rate "osc\<lparr>osc_pitch := p\<rparr>"]
    by (simp_all add: setFreq_def setPitch_def)
  have range:
    "0 \<le> clamp (f + pitchOffset (osc_pitch osc)) 0 (real rate / 2)
     \<and> clamp (f + pitchOffset (osc_pitch osc)) 0 (real rate / 2) \<le> real rate / 2"
    "0 \<le> clamp (osc_freq osc + pitchOffset p) 0 (real rate / 2)
     \<and> clamp (osc_freq osc + pitchOffset p) 0 (real rate / 2) \<le> real rate / 2"
    using clamp_range[of 0 "real rate / 2" "f + pitchOffset (osc_pitch osc)"]
      clamp_range[of 0 "real rate / 2" "osc_freq osc + pitchOffset p"]
    by simp_all
  have nonneg:
    "0 \<le> osc_phaseIncrement (setFreq rate f osc)"
    "0 \<le> osc_phaseIncrement (setPitch rate p osc)"
    by (simp_all add: setFreq_def setPitch_def setIncrement_nonneg)
  have le_pi:
    "osc_phaseIncrement (setFreq rate f osc) \<le> pi"
    "osc_phaseIncrement (setPitch rate p osc) \<le> pi"
    using assms by (simp_all add: setFreq_def setPitch_def setIncrement_le_pi)
  from eqs range nonneg le_pi show ?thesis
    by blast
qed

text \<open>
  The theorem at 44100 Hz on a new oscillator: a frequency of 30000 Hz is clamped to the
  Nyquist limit 22050 Hz, which gives the increment \<open>\<pi>\<close>, and a bend of \<open>-1\<close> takes 440 Hz
  below zero, which gives the increment 0.
\<close>

theorem setFreq_setPitch_increment_witness:
  "0 < (44100::nat)
   \<and> osc_phaseIncrement (setFreq 44100 30000 (Oscillator_new 44100)) = pi
   \<and> osc_phaseIncrement (setPitch 44100 (- 1) (Oscillator_new 44100)) = 0"
proof -
  have fields: "osc_pitch (Oscillator_new 44100) = 0" "osc_freq (Oscillator_new 44100) = 440"
    by (simp_all add: Oscillator_new_def setIncrement_def)
  have "(2::real) powr 14 = 2 ^ 14"
    by simp
  then have bend: "440 + pitchOffset (- 1) < 0"
    by (simp add: pitchOffset_def)
  have rate: "0 < (44100::nat)"
    by simp
  from setFreq_setPitch_increment[OF rate, of 30000 "Oscillator_new 44100" "- 1"] fields bend
  show ?thesis
    by (simp add: clamp_def pitchOffset_def)
qed



section \<open>MidiController: normalisation, capture and the reducer\<close>


text \<open>
  C2 as stated fails: the note-on event for note 60 with velocity 0 is normalised to an
  event of type \<^verbatim>\<open>MIDI_UNHANDLED\<close> with note 0, not to \<^verbatim>\<open>MIDI_NOTEOFF\<close> with note 60.
\<close>

theorem note_on_zero_counterexample:
  "seq_type note_on_zero = SND_SEQ_EVENT_NOTEON \<and> note_velocity note_on_zero = 0
   \<and> note_note note_on_zero = 60
   \<and> ev_type (midi_event_process note_on_zero) = MIDI_UNHANDLED
   \<and> ev_type (midi_event_process note_on_zero) \<noteq> MIDI_NOTEOFF
   \<and> ev_note (midi_event_process note_on_zero) = 0"
  by (simp add: note_on_zero_def midi_event_process_def)

text \<open>
  C2, as the code has it: a raw note-on event with velocity 0 is normalised to the
  \<^verbatim>\<open>MIDI_UNHANDLED\<close> event with note 0 (the guard \<^verbatim>\<open>velocity > 0\<close> leaves the initial
  values of the locals); an event of type \<^verbatim>\<open>MIDI_NOTEOFF\<close> carrying the note number
  comes from an explicit note-off event, and from nothing else.
\<close>

theorem note_on_zero_unhandled:
  "(seq_type ev = SND_SEQ_EVENT_NOTEON \<and> note_velocity ev = 0
      \<longrightarrow> midi_event_process ev = unhandled_event)
   \<and> (seq_type ev = SND_SEQ_EVENT_NOTEOFF
      \<longrightarrow> ev_type (midi_event_process ev) = MIDI_NOTEOFF
        \<and> ev_note (midi_event_process ev) = uint (note_note ev))
   \<and> (ev_type (midi_event_process ev) = MIDI_NOTEOFF \<longrightarrow> seq_type ev = SND_SEQ_EVENT_NOTEOFF)"
  by (auto simp add: midi_event_process_def unhandled_event_def split: snd_seq_event_type.splits if_splits)

text \<open>The theorem at the note-on of note 60 with velocity 0, and at the note-off of note 60.\<close>

theorem note_on_zero_unhandled_witness:
  "midi_event_process note_on_zero = unhandled_event
   \<and> ev_note (midi_event_process (note_on_zero\<lparr>seq_type := SND_SEQ_EVENT_NOTEOFF\<rparr>)) = 60"
  using note_on_zero_unhandled[of note_on_zero]
        note_on_zero_unhandled[of "note_on_zero\<lparr>seq_type := SND_SEQ_EVENT_NOTEOFF\<rparr>"]
  by (simp add: note_on_zero_def)

lemma enqueued_simps:
  "enqueued [] = []"
  "enqueued (rd # sq) =
     (if 0 \<le> read_r rd then midi_event_process (read_event rd) # enqueued sq
      else enqueued sq)"
  by (simp_all add: enqueued_def)

lemma drain_reads:
  "no_fatal_read sq \<Longrightarrow>
   \<exists>k. k \<le> length sq \<and> (sq \<noteq> [] \<longrightarrow> 0 < k) \<and>
     drain_events sp ep sq mc
       = Inr (drop k sq, mc\<lparr>mc_queue := mc_queue mc @ enqueued (take k sq)\<rparr>)"
proof (induction sq arbitrary: sp ep mc)
  case Nil
  then show ?case by (simp add: enqueued_simps)
next
  case (Cons rd sq)
  then have nf: "no_fatal_read sq" and ok: "read_r rd = - EAGAIN \<or> 0 \<le> read_r rd"
    by (simp_all add: no_fatal_read_def)
  show ?case
  proof (cases "read_r rd = - EAGAIN")
    case True
    then have "drain_events sp ep (rd # sq) mc = Inr (sq, mc)"
      by simp
    moreover have "\<not> 0 \<le> read_r rd" using True by (simp add: EAGAIN_def)
    ultimately show ?thesis
      by (intro exI[of _ "Suc 0"]) (simp add: enqueued_simps)
  next
    case False
    then have nn: "0 \<le> read_r rd" using ok by simp
    let ?ep = "(if \<not> sp then read_pending rd else ep) - 1"
    let ?mc = "MidiController_input (midi_event_process (read_event rd)) mc"
    show ?thesis
    proof (cases "?ep > 0")
      case True
      from Cons.IH[OF nf, of True ?ep ?mc] obtain k where
        k: "k \<le> length sq"
        "drain_events True ?ep sq ?mc
          = Inr (drop k sq, ?mc\<lparr>mc_queue := mc_queue ?mc @ enqueued (take k sq)\<rparr>)"
        by blast
      have "drain_events sp ep (rd # sq) mc = drain_events True ?ep sq ?mc"
        using True False nn by (cases sp) (simp_all add: Let_def)
      with k nn show ?thesis
        by (intro exI[of _ "Suc k"]) (simp add: MidiController_input_def enqueued_simps)
    next
      case ep: False
      then have "drain_events sp ep (rd # sq) mc = Inr (sq, ?mc)"
        using False nn by (cases sp) (simp_all add: Let_def)
      then show ?thesis using nn
        by (intro exI[of _ "Suc 0"]) (simp add: MidiController_input_def enqueued_simps)
    qed
  qed
qed

lemma no_fatal_drop: "no_fatal_read sq \<Longrightarrow> no_fatal_read (drop k sq)"
  by (simp add: no_fatal_read_def list_all_iff) (meson in_set_dropD)

lemma enqueued_append: "enqueued (xs @ ys) = enqueued xs @ enqueued ys"
  by (simp add: enqueued_def)

lemma thread_reads:
  "no_fatal_read sq \<Longrightarrow>
   \<exists>k. k \<le> length sq \<and> (length sq \<le> n \<longrightarrow> k = length sq) \<and>
     midi_event_thread n sq mc = Inr (mc\<lparr>mc_queue := mc_queue mc @ enqueued (take k sq)\<rparr>)"
proof (induction n arbitrary: sq mc)
  case 0
  then show ?case by (intro exI[of _ 0]) (simp add: enqueued_simps)
next
  case (Suc n)
  from drain_reads[OF Suc.prems, of False 0 mc] obtain k where
    k: "k \<le> length sq" "sq \<noteq> [] \<longrightarrow> 0 < k"
    "drain_events False 0 sq mc
       = Inr (drop k sq, mc\<lparr>mc_queue := mc_queue mc @ enqueued (take k sq)\<rparr>)"
    by blast
  let ?mc = "mc\<lparr>mc_queue := mc_queue mc @ enqueued (take k sq)\<rparr>"
  from Suc.IH[OF no_fatal_drop[OF Suc.prems], of k ?mc] obtain j where
    j: "j \<le> length (drop k sq)" "length (drop k sq) \<le> n \<longrightarrow> j = length (drop k sq)"
    "midi_event_thread n (drop k sq) ?mc
       = Inr (?mc\<lparr>mc_queue := mc_queue ?mc @ enqueued (take j (drop k sq))\<rparr>)"
    by blast
  have tk: "take (k + j) sq = take k sq @ take j (drop k sq)"
    by (simp add: take_add)
  have all: "length sq \<le> Suc n \<longrightarrow> k + j = length sq"
    using k(1,2) j(1,2) by (cases sq) auto
  have "midi_event_thread (Suc n) sq mc
          = Inr (mc\<lparr>mc_queue := mc_queue mc @ enqueued (take (k + j) sq)\<rparr>)"
    using k(3) j(3) by (simp add: tk enqueued_append)
  with all k(1) j(1) show ?case
    by (intro exI[of _ "k + j"]) simp
qed

lemma process_not_empty: "ev_type (midi_event_process ev) \<noteq> MIDI_EMPTY"
  by (simp add: midi_event_process_def split: snd_seq_event_type.splits)

text \<open>
  C3, as the code has it: the capture thread enqueues the normalisation of every raw
  event it reads, whatever its type, \<^verbatim>\<open>MIDI_UNHANDLED\<close> included. For every sequence \<open>sq\<close>
  of reads without a fatal one (each returns \<^verbatim>\<open>-EAGAIN\<close> or any \<open>r \<ge> 0\<close>, with any
  pending counts), the thread has at every moment gone through a prefix of \<open>sq\<close>, and the
  queue is the queue before followed by the normalised event of every successful read
  of that prefix, in arrival order; once the thread has looped as often as there are
  reads, the prefix is all of \<open>sq\<close>. The only type the normalisation never produces, so
  never enqueues, is \<^verbatim>\<open>MIDI_EMPTY\<close>.
\<close>

theorem capture_enqueues_all:
  assumes "no_fatal_read sq"
  shows "(\<exists>k\<le>length sq.
            midi_event_thread n sq mc
              = Inr (mc\<lparr>mc_queue := mc_queue mc @ enqueued (take k sq)\<rparr>))
         \<and> (length sq \<le> n \<longrightarrow>
              midi_event_thread n sq mc = Inr (mc\<lparr>mc_queue := mc_queue mc @ enqueued sq\<rparr>))
         \<and> ev_type (midi_event_process ev) \<noteq> MIDI_EMPTY"
proof -
  from thread_reads[OF assms, of n mc] obtain k where
    k: "k \<le> length sq" "length sq \<le> n \<longrightarrow> k = length sq"
    "midi_event_thread n sq mc = Inr (mc\<lparr>mc_queue := mc_queue mc @ enqueued (take k sq)\<rparr>)"
    by blast
  have prefix: "\<exists>k\<le>length sq.
            midi_event_thread n sq mc
              = Inr (mc\<lparr>mc_queue := mc_queue mc @ enqueued (take k sq)\<rparr>)"
    using k(1,3) by blast
  have whole: "length sq \<le> n \<longrightarrow>
              midi_event_thread n sq mc = Inr (mc\<lparr>mc_queue := mc_queue mc @ enqueued sq\<rparr>)"
    using k by auto
  from prefix whole process_not_empty[of ev] show ?thesis
    by blast
qed

text \<open>
  C3 as stated fails: the thread reads the note-on of note 60 with velocity 0, whose
  normalisation has type \<^verbatim>\<open>MIDI_UNHANDLED\<close>, and the queue of a new controller then holds
  that event.
\<close>

theorem capture_unhandled_counterexample:
  "ev_type (midi_event_process note_on_zero) = MIDI_UNHANDLED
   \<and> midi_event_thread 1 [\<lparr>read_r = 0, read_event = note_on_zero, read_pending = 0\<rparr>]
         (MidiController_new 0)
       = Inr ((MidiController_new 0)\<lparr>mc_queue := [unhandled_event]\<rparr>)
   \<and> ev_type unhandled_event = MIDI_UNHANDLED"
  by (simp add: note_on_zero_def midi_event_process_def EAGAIN_def
        MidiController_input_def MidiController_new_def unhandled_event_def)

text \<open>
  The theorem on three reads and three rounds of the loop: the unhandled note-on with 16
  bytes left in the buffer and one event pending, a read without data, and the note-off
  of note 60. Both events are in the queue, in order.
\<close>

theorem capture_enqueues_all_witness:
  "no_fatal_read
     [\<lparr>read_r = 16, read_event = note_on_zero, read_pending = 1\<rparr>,
      \<lparr>read_r = - EAGAIN, read_event = note_on_zero, read_pending = 0\<rparr>,
      \<lparr>read_r = 0, read_event = note_on_zero\<lparr>seq_type := SND_SEQ_EVENT_NOTEOFF\<rparr>,
       read_pending = 0\<rparr>]
   \<and> midi_event_thread 3
       [\<lparr>read_r = 16, read_event = note_on_zero, read_pending = 1\<rparr>,
        \<lparr>read_r = - EAGAIN, read_event = note_on_zero, read_pending = 0\<rparr>,
        \<lparr>read_r = 0, read_event = note_on_zero\<lparr>seq_type := SND_SEQ_EVENT_NOTEOFF\<rparr>,
         read_pending = 0\<rparr>]
       (MidiController_new 0)
     = Inr ((MidiController_new 0)\<lparr>mc_queue := [unhandled_event, note_off_60]\<rparr>)"
proof -
  let ?sq = "[\<lparr>read_r = 16, read_event = note_on_zero, read_pending = 1\<rparr>,
      \<lparr>read_r = - EAGAIN, read_event = note_on_zero, read_pending = 0\<rparr>,
      \<lparr>read_r = 0, read_event = note_on_zero\<lparr>seq_type := SND_SEQ_EVENT_NOTEOFF\<rparr>,
       read_pending = 0\<rparr>]"
  have ok: "no_fatal_read ?sq"
    by (simp add: no_fatal_read_def)
  have enq: "enqueued ?sq = [unhandled_event, note_off_60]"
    by (simp add: enqueued_def EAGAIN_def note_on_zero_def midi_event_process_def
          unhandled_event_def note_off_60_def)
  from capture_enqueues_all[OF ok, of 3 "MidiController_new 0"] ok enq show ?thesis
    by (simp add: MidiController_new_def)
qed

text \<open>
  C4: a call to process() takes at most one event off the queue and folds it into the
  parameters. \<^verbatim>\<open>NOTE_ON\<close> with velocity above 0: the current note is the event's note, the
  frequency \<open>440 \<times> 2^((note - 69)/12)\<close>, the velocity the event's, and the note is marked
  on. \<^verbatim>\<open>NOTE_OFF\<close>: the note is marked off, and frequency and velocity are reset to
  \<open>-1\<close> and 0 whatever else is held. \<^verbatim>\<open>PITCHBEND\<close>: pitch is the event's value, frequency
  and velocity stay. \<^verbatim>\<open>CONTROL\<close>, \<^verbatim>\<open>UNHANDLED\<close>, \<^verbatim>\<open>EMPTY\<close> and an empty queue:
  frequency, velocity, pitch and the marks stay. Each result is given as the whole
  controller, so every field not named in it is unchanged.
\<close>

theorem process_reducer:
  "mc_queue (MidiController_process mc) = drop 1 (mc_queue mc)
   \<and> (mc_queue mc = e # q \<and> ev_type e = MIDI_NOTEON \<and> 0 < ev_velocity e \<longrightarrow>
        MidiController_process mc =
          mc\<lparr>mc_note := ev_note e,
             mc_frequency := 440 * 2 powr ((real_of_int (ev_note e) - 69) / 12),
             mc_velocity := ev_velocity e,
             mc_notes := (mc_notes mc)(ev_note e \<mapsto> True),
             mc_queue := q\<rparr>
        \<and> MidiController_noteOn (MidiController_process mc) (ev_note e))
   \<and> (mc_queue mc = e # q \<and> ev_type e = MIDI_NOTEOFF \<longrightarrow>
        MidiController_process mc =
          mc\<lparr>mc_note := - 1,
             mc_notes := (mc_notes mc)(ev_note e \<mapsto> False),
             mc_frequency := - 1,
             mc_velocity := 0,
             mc_queue := q\<rparr>
        \<and> \<not> MidiController_noteOn (MidiController_process mc) (ev_note e)
        \<and> MidiController_frequency (MidiController_process mc) < 0
        \<and> MidiController_velocity (MidiController_process mc) = 0)
   \<and> (mc_queue mc = e # q \<and> ev_type e = MIDI_PITCHBEND \<longrightarrow>
        MidiController_process mc = mc\<lparr>mc_note := - 1, mc_pitch := ev_pitch e, mc_queue := q\<rparr>)
   \<and> (mc_queue mc = e # q \<and> ev_type e \<in> {MIDI_CONTROL, MIDI_UNHANDLED, MIDI_EMPTY} \<longrightarrow>
        MidiController_process mc = mc\<lparr>mc_note := - 1, mc_queue := q\<rparr>)
   \<and> (mc_queue mc = [] \<longrightarrow> MidiController_process mc = mc\<lparr>mc_note := - 1\<rparr>)"
proof -
  have queue: "mc_queue (MidiController_process mc) = drop 1 (mc_queue mc)"
    by (cases "mc_queue mc"; cases "ev_type (hd (mc_queue mc))")
       (simp_all add: MidiController_process_def MidiController_nextEvent_def
          MidiEvent_of_type_def Let_def)
  have empty: "mc_queue mc = [] \<longrightarrow> MidiController_process mc = mc\<lparr>mc_note := - 1\<rparr>"
    by (simp add: MidiController_process_def MidiController_nextEvent_def
          MidiEvent_of_type_def Let_def)
  have cons: "mc_queue mc = e # q \<Longrightarrow> ev_type e = t \<Longrightarrow>
        MidiController_process mc =
          (let mc' = mc\<lparr>mc_note := - 1, mc_queue := q\<rparr>
           in case t of
                MIDI_NOTEON \<Rightarrow>
                  (if ev_velocity e \<noteq> 0
                   then mc'\<lparr>mc_note := ev_note e, mc_frequency := noteToFrequency (ev_note e),
                           mc_velocity := ev_velocity e,
                           mc_notes := (mc_notes mc)(ev_note e \<mapsto> True)\<rparr>
                   else mc')
              | MIDI_NOTEOFF \<Rightarrow>
                  mc'\<lparr>mc_notes := (mc_notes mc)(ev_note e \<mapsto> False), mc_frequency := - 1,
                      mc_velocity := 0\<rparr>
              | MIDI_PITCHBEND \<Rightarrow> mc'\<lparr>mc_pitch := ev_pitch e\<rparr>
              | _ \<Rightarrow> mc')" for t
    by (cases t)
       (simp_all add: MidiController_process_def MidiController_nextEvent_def Let_def)
  have on: "mc_queue mc = e # q \<and> ev_type e = MIDI_NOTEON \<and> 0 < ev_velocity e \<longrightarrow>
        MidiController_process mc =
          mc\<lparr>mc_note := ev_note e,
             mc_frequency := 440 * 2 powr ((real_of_int (ev_note e) - 69) / 12),
             mc_velocity := ev_velocity e,
             mc_notes := (mc_notes mc)(ev_note e \<mapsto> True),
             mc_queue := q\<rparr>
        \<and> MidiController_noteOn (MidiController_process mc) (ev_note e)"
    using cons[of MIDI_NOTEON]
    by (simp add: noteToFrequency_def MidiController_noteOn_def)
  have off: "mc_queue mc = e # q \<and> ev_type e = MIDI_NOTEOFF \<longrightarrow>
        MidiController_process mc =
          mc\<lparr>mc_note := - 1,
             mc_notes := (mc_notes mc)(ev_note e \<mapsto> False),
             mc_frequency := - 1,
             mc_velocity := 0,
             mc_queue := q\<rparr>
        \<and> \<not> MidiController_noteOn (MidiController_process mc) (ev_note e)
        \<and> MidiController_frequency (MidiController_process mc) < 0
        \<and> MidiController_velocity (MidiController_process mc) = 0"
    using cons[of MIDI_NOTEOFF]
    by (simp add: MidiController_noteOn_def MidiController_frequency_def
          MidiController_velocity_def)
  have bend: "mc_queue mc = e # q \<and> ev_type e = MIDI_PITCHBEND \<longrightarrow>
        MidiController_process mc = mc\<lparr>mc_note := - 1, mc_pitch := ev_pitch e, mc_queue := q\<rparr>"
    using cons[of MIDI_PITCHBEND] by simp
  have other: "mc_queue mc = e # q \<and> ev_type e \<in> {MIDI_CONTROL, MIDI_UNHANDLED, MIDI_EMPTY} \<longrightarrow>
        MidiController_process mc = mc\<lparr>mc_note := - 1, mc_queue := q\<rparr>"
    using cons[of MIDI_CONTROL] cons[of MIDI_UNHANDLED] cons[of MIDI_EMPTY] by auto
  from queue on off bend other empty show ?thesis
    by blast
qed

text \<open>
  The theorem on a new controller whose queue holds a note-on of note 69 (A4) at velocity
  100/127 and a note-off of note 60, on one holding the note-off alone, and on an empty
  queue.
\<close>

theorem process_reducer_witness:
  "MidiController_frequency (MidiController_process ((MidiController_new 0)\<lparr>mc_queue := [note_on_69, note_off_60]\<rparr>)) = 440
   \<and> MidiController_velocity (MidiController_process ((MidiController_new 0)\<lparr>mc_queue := [note_on_69, note_off_60]\<rparr>)) = 100 / 127
   \<and> MidiController_noteOn (MidiController_process ((MidiController_new 0)\<lparr>mc_queue := [note_on_69, note_off_60]\<rparr>)) 69
   \<and> mc_queue (MidiController_process ((MidiController_new 0)\<lparr>mc_queue := [note_on_69, note_off_60]\<rparr>)) = [note_off_60]
   \<and> MidiController_frequency (MidiController_process ((MidiController_new 0)\<lparr>mc_queue := [note_off_60]\<rparr>)) = - 1
   \<and> MidiController_process (MidiController_new 0) = (MidiController_new 0)\<lparr>mc_note := - 1\<rparr>"
  using process_reducer[of "(MidiController_new 0)\<lparr>mc_queue := [note_on_69, note_off_60]\<rparr>" note_on_69 "[note_off_60]"]
        process_reducer[of "(MidiController_new 0)\<lparr>mc_queue := [note_off_60]\<rparr>" note_off_60 "[]"]
        process_reducer[of "MidiController_new 0" note_off_60 "[]"]
  by (simp add: note_on_69_def note_off_60_def MidiController_new_def MidiController_frequency_def
       MidiController_velocity_def MidiController_noteOn_def)

text \<open>
  C9 as stated fails: after process() has consumed the note-off of note 60, which marks
  note 60 as off, note() is \<open>-1\<close> and not 60.
\<close>

theorem note_after_note_off_counterexample:
  "ev_type note_off_60 = MIDI_NOTEOFF \<and> ev_note note_off_60 = 60
   \<and> MidiController_note (MidiController_process ((MidiController_new 0)\<lparr>mc_queue := [note_off_60]\<rparr>)) = - 1
   \<and> mc_notes (MidiController_process ((MidiController_new 0)\<lparr>mc_queue := [note_off_60]\<rparr>)) 60 = Some False"
  by (simp add: note_off_60_def MidiController_new_def MidiController_note_def
        MidiController_process_def MidiController_nextEvent_def Let_def)

text \<open>
  C9, as the code has it: after a call to process(), note() is the note of the event
  processed in that call when that event is a \<^verbatim>\<open>NOTE_ON\<close> with a velocity other than 0,
  and \<open>-1\<close> in every other case: an empty queue, a \<^verbatim>\<open>NOTE_OFF\<close> (whose note is recorded
  in the map only), and any other event.
\<close>

theorem note_after_process:
  "MidiController_note (MidiController_process mc) =
     (case mc_queue mc of
        [] \<Rightarrow> - 1
      | e # q \<Rightarrow> if ev_type e = MIDI_NOTEON \<and> ev_velocity e \<noteq> 0 then ev_note e else - 1)"
  by (auto simp add: MidiController_process_def MidiController_nextEvent_def MidiController_note_def
        MidiEvent_of_type_def Let_def
      split: list.splits MidiEventType.splits)

text \<open>The theorem after a note-on of note 69 and after a note-off of note 60.\<close>

theorem note_after_process_witness:
  "MidiController_note (MidiController_process ((MidiController_new 0)\<lparr>mc_queue := [note_on_69, note_off_60]\<rparr>)) = 69
   \<and> MidiController_note (MidiController_process ((MidiController_new 0)\<lparr>mc_queue := [note_off_60]\<rparr>)) = - 1"
  using note_after_process[of "(MidiController_new 0)\<lparr>mc_queue := [note_on_69, note_off_60]\<rparr>"]
        note_after_process[of "(MidiController_new 0)\<lparr>mc_queue := [note_off_60]\<rparr>"]
  by (simp add: note_on_69_def note_off_60_def MidiController_new_def)

section \<open>AudioDevice: play and the single-period write\<close>

lemma copy_samples_eq:
  "i \<le> n \<Longrightarrow> length smp = n \<Longrightarrow> index + n \<le> length buffer \<Longrightarrow>
   copy_samples buffer index n i smp = Some (take i smp @ take (n - i) (drop (index + i) buffer))"
proof (induction buffer index n i smp rule: copy_samples.induct)
  case (1 buffer index n i smp)
  show ?case
  proof (cases "i < n")
    case True
    let ?smp = "smp[i := buffer ! (index + i)]"
    have inb: "index + i < length buffer" "i < length smp"
      using True 1(3,4) by auto
    have "copy_samples buffer index n i smp = copy_samples buffer index n (Suc i) ?smp"
      using True inb by (subst copy_samples.simps) simp
    also have "\<dots> = Some (take (Suc i) ?smp @ take (n - Suc i) (drop (index + Suc i) buffer))"
      using 1(1)[OF True] True inb 1(3,4) by simp
    also have "take (Suc i) ?smp = take i smp @ [buffer ! (index + i)]"
      using inb by (simp add: take_Suc_conv_app_nth)
    also have "(take i smp @ [buffer ! (index + i)]) @ take (n - Suc i) (drop (index + Suc i) buffer)
        = take i smp @ take (n - i) (drop (index + i) buffer)"
    proof -
      have "drop (index + i) buffer = buffer ! (index + i) # drop (index + Suc i) buffer"
        using inb by (simp add: Cons_nth_drop_Suc)
      moreover have "n - i = Suc (n - Suc i)" using True by simp
      ultimately show ?thesis by simp
    qed
    finally show ?thesis .
  next
    case False
    then have "i = n" using 1(2) by simp
    then show ?thesis using 1(3) by (subst copy_samples.simps) simp
  qed
qed

lemma playSamples_fields:
  "AudioDevice_playSamples dev = Inr dev' \<Longrightarrow>
   samples dev' = samples dev \<and> num_samples dev' = num_samples dev \<and> period_size dev' = period_size dev"
  by (auto simp: AudioDevice_playSamples_def split: sum.splits prod.splits)

lemma play_loop_periods:
  assumes "0 < ns" "num_samples dev = ns" "length (samples dev) = ns" "k * ns \<le> length buffer" "j \<le> k"
  shows "play_loop ns buffer (k * ns) (j * ns) dev
           = play_periods dev (map (\<lambda>i. take ns (drop (i * ns) buffer)) [j..<k])"
  using assms
proof (induction "k - j" arbitrary: j dev)
  case 0
  then have "j = k" by simp
  then show ?case by (subst play_loop.simps) simp
next
  case (Suc d)
  then have lt: "j < k" by simp
  then have idx: "j * ns < k * ns" using Suc.prems(1) by simp
  have "Suc j * ns \<le> k * ns" using lt by (simp add: Suc_leI mult_le_mono1 del: mult_Suc)
  then have fit: "j * ns + ns \<le> length buffer" using Suc.prems(4) by simp
  have copy: "copy_samples buffer (j * ns) (num_samples dev) 0 (samples dev)
                = Some (take ns (drop (j * ns) buffer))"
    using copy_samples_eq[of 0 ns "samples dev" "j * ns" buffer] Suc.prems fit by simp
  let ?p = "take ns (drop (j * ns) buffer)"
  have upt: "[j..<k] = j # [Suc j..<k]" using lt by (simp add: upt_conv_Cons)
  show ?case
  proof (cases "AudioDevice_playSamples (dev\<lparr>samples := ?p\<rparr>)")
    case (Inl e)
    then show ?thesis using idx Suc.prems(1) copy upt
      by (subst play_loop.simps) simp
  next
    case (Inr dev')
    from playSamples_fields[OF Inr] have f: "samples dev' = ?p" "num_samples dev' = ns"
      using Suc.prems(2) by simp_all
    have len: "length (samples dev') = ns" using f(1) fit by simp
    have "play_loop ns buffer (k * ns) (Suc j * ns) dev'
        = play_periods dev' (map (\<lambda>i. take ns (drop (i * ns) buffer)) [Suc j..<k])"
      using Suc.hyps(1)[of "Suc j" dev'] Suc.hyps(2) Suc.prems(1,4) f(2) len lt by simp
    then show ?thesis using idx Suc.prems(1) copy upt Inr
      by (subst play_loop.simps) (simp add: add.commute)
  qed
qed

text \<open>
  C7: on a device with a positive per-period sample count \<open>num_samples\<close> (the
  constructor makes it \<open>period_size \<times> channels\<close>), play with a length that is not a
  multiple of \<open>num_samples\<close> fails its assertion with the device untouched, so before
  any call to the hardware; with a length of \<open>k\<close> periods inside the buffer, play is: for
  each of the \<open>k\<close> period-sized chunks in order, copy the chunk into the sample buffer and
  do one single-period write.
\<close>

theorem play_rejects_or_plays:
  assumes "0 < num_samples dev"
  shows "(len mod num_samples dev \<noteq> 0 \<longrightarrow>
            AudioDevice_play dev buffer len = Inl (AssertionFailed, dev))
         \<and> (len = k * num_samples dev \<and> len \<le> length buffer
              \<and> length (samples dev) = num_samples dev \<longrightarrow>
            AudioDevice_play dev buffer len
              = play_periods dev (periods (num_samples dev) buffer k))"
  using assms play_loop_periods[of "num_samples dev" dev k buffer 0]
  by (auto simp: AudioDevice_play_def periods_def)

lemma new_num_samples:
  "p < 2 ^ 59 \<Longrightarrow> num_samples (AudioDevice_new b p mem h) = p * channels
      \<and> length (samples (AudioDevice_new b p mem h)) = p * channels
      \<and> period_size (AudioDevice_new b p mem h) = p"
  by (simp add: AudioDevice_new_def channels_def format_width_def Let_def)

lemma map_quiet: "map quiet xs = replicate (length xs) 0"
  by (induction xs) (simp_all add: quiet_def)

lemma small_device_fields:
  "samples (small_device rs) = [0, 0, 0, 0]"
  "num_samples (small_device rs) = 4"
  "period_size (small_device rs) = 2"
  "device_handle (small_device rs) = \<lparr>responses = rs, calls = []\<rparr>"
proof -
  have "replicate 4 (0::int16_t) = [0, 0, 0, 0]"
    by (simp add: numeral_eq_Suc)
  then show "samples (small_device rs) = [0, 0, 0, 0]"
    by (simp add: small_device_def AudioDevice_new_def channels_def format_width_def Let_def
          map_quiet)
qed (simp_all add: small_device_def AudioDevice_new_def channels_def format_width_def Let_def)

text \<open>
  The theorem on the device with period size 2 (4 samples per period) and a buffer of 8
  samples: length 6 is rejected with the device as it was; length 8 copies and writes
  the two chunks.
\<close>

theorem play_rejects_or_plays_witness:
  "0 < num_samples (small_device [2, 2])
   \<and> AudioDevice_play (small_device [2, 2]) [1, 2, 3, 4, 5, 6, 7, 8] 6
       = Inl (AssertionFailed, small_device [2, 2])
   \<and> AudioDevice_play (small_device [2, 2]) [1, 2, 3, 4, 5, 6, 7, 8] 8
       = Inr ((small_device [2, 2])
               \<lparr>samples := [5, 6, 7, 8],
                device_handle :=
                  \<lparr>responses = [],
                   calls = [snd_pcm_writei [1, 2, 3, 4] 2, snd_pcm_writei [5, 6, 7, 8] 2]\<rparr>\<rparr>)"
proof -
  have pos: "0 < num_samples (small_device [2, 2])"
    by (simp add: small_device_fields)
  have run: "play_periods (small_device [2, 2]) (periods 4 [1, 2, 3, 4, 5, 6, 7, 8] 2)
       = Inr ((small_device [2, 2])
               \<lparr>samples := [5, 6, 7, 8],
                device_handle :=
                  \<lparr>responses = [],
                   calls = [snd_pcm_writei [1, 2, 3, 4] 2, snd_pcm_writei [5, 6, 7, 8] 2]\<rparr>\<rparr>)"
    by (simp add: periods_def upt_rec AudioDevice_playSamples_def small_device_fields
          int_of_size_t_def playSamples_loop.simps alsa_def channels_def EAGAIN_def)
  from play_rejects_or_plays[OF pos, of 6 "[1, 2, 3, 4, 5, 6, 7, 8]" 0]
    play_rejects_or_plays[OF pos, of 8 "[1, 2, 3, 4, 5, 6, 7, 8]" 2] pos run
  show ?thesis
    by (simp add: small_device_fields)
qed

lemma loop_prefix:
  assumes "\<forall>f\<in>set pre. f = - EAGAIN \<or> 0 \<le> f" "written pre < count" "responses h = pre @ tl'"
  shows "\<exists>ws ptr'. playSamples_loop smp h ptr count
            = playSamples_loop smp (h\<lparr>responses := tl', calls := calls h @ ws\<rparr>) ptr' (count - written pre)
          \<and> length ws = length pre \<and> list_all is_writei ws"
  using assms
proof (induction pre arbitrary: h ptr count)
  case Nil
  then have "h\<lparr>responses := tl', calls := calls h @ []\<rparr> = h" by (cases h) simp
  then show ?case by (intro exI[of _ "[]"] exI[of _ ptr]) (simp add: written_def)
next
  case (Cons f pre)
  let ?w = "snd_pcm_writei (take (nat count * channels) (drop ptr smp)) count"
  let ?h = "h\<lparr>responses := pre @ tl', calls := calls h @ [?w]\<rparr>"
  have fs: "f = - EAGAIN \<or> 0 \<le> f" using Cons.prems(1) by simp
  have wpre: "0 \<le> written pre"
    using Cons.prems(1) unfolding written_def by (intro sum_list_nonneg) auto
  have wsum: "written (f # pre) = (if f = - EAGAIN then 0 else f) + written pre"
    by (simp add: written_def)
  have pos: "0 < count" using Cons.prems(1,2) wpre fs wsum by (auto split: if_splits)
  have al: "alsa ?w h = Some (f, ?h)" using Cons.prems(3) by (simp add: alsa_def)
  show ?case
  proof (cases "f = - EAGAIN")
    case True
    have step: "playSamples_loop smp h ptr count = playSamples_loop smp ?h ptr count"
      using pos al True by (subst playSamples_loop.simps) simp
    from Cons.IH[of count ?h ptr] Cons.prems wsum True
    obtain ws ptr' where
      "playSamples_loop smp ?h ptr count
         = playSamples_loop smp (?h\<lparr>responses := tl', calls := calls ?h @ ws\<rparr>) ptr' (count - written pre)"
      "length ws = length pre" "list_all is_writei ws"
      by auto
    with step True wsum show ?thesis
      by (intro exI[of _ "?w # ws"] exI[of _ ptr']) simp
  next
    case False
    then have nn: "0 \<le> f" using fs by simp
    have step: "playSamples_loop smp h ptr count
                  = playSamples_loop smp ?h (ptr + nat f * channels) (count - f)"
      using pos al False nn by (subst playSamples_loop.simps) simp
    from Cons.IH[of "count - f" ?h "ptr + nat f * channels"] Cons.prems wsum False
    obtain ws ptr' where
      "playSamples_loop smp ?h (ptr + nat f * channels) (count - f)
         = playSamples_loop smp (?h\<lparr>responses := tl', calls := calls ?h @ ws\<rparr>) ptr' (count - f - written pre)"
      "length ws = length pre" "list_all is_writei ws"
      by auto
    with step False wsum show ?thesis
      by (intro exI[of _ "?w # ws"] exI[of _ ptr']) (simp add: algebra_simps)
  qed
qed

lemma loop_underrun:
  assumes "0 < count" "responses h = - EPIPE # r # rest"
  shows "\<exists>w. is_writei w \<and> playSamples_loop smp h ptr count
           = Inr (h\<lparr>responses := rest, calls := calls h @ [w, snd_pcm_prepare]\<rparr>)"
  using assms
  by (intro exI[of _ "snd_pcm_writei (take (nat count * channels) (drop ptr smp)) count"])
     (simp add: playSamples_loop.simps[of smp h] alsa_def xrun_recovery_def EPIPE_def EAGAIN_def)

lemma loop_fatal:
  assumes "0 < count" "responses h = f # rest" "f < 0" "f \<noteq> - EAGAIN" "f \<noteq> - EPIPE" "f \<noteq> - ESTRPIPE"
  shows "\<exists>w. is_writei w \<and> playSamples_loop smp h ptr count
           = Inl (Exit EXIT_FAILURE, h\<lparr>responses := rest, calls := calls h @ [w]\<rparr>)"
  using assms
  by (intro exI[of _ "snd_pcm_writei (take (nat count * channels) (drop ptr smp)) count"])
     (simp add: playSamples_loop.simps[of smp h] alsa_def xrun_recovery_def)

lemma loop_whole:
  assumes "0 < count" "responses h = count # rest"
  shows "playSamples_loop smp h 0 count
           = Inr (h\<lparr>responses := rest, calls := calls h @ [snd_pcm_writei (take (nat count * channels) smp) count]\<rparr>)"
  using assms
  by (subst playSamples_loop.simps)
     (simp add: alsa_def EAGAIN_def playSamples_loop.simps[of _ _ _ 0])

lemma xrun_recovery_underrun:
  "xrun_recovery h (- EPIPE) =
     (case responses h of
        [] \<Rightarrow> None
      | e # rs \<Rightarrow> Some (0, h\<lparr>responses := rs, calls := calls h @ [snd_pcm_prepare]\<rparr>))"
  by (simp add: xrun_recovery_def alsa_def split: list.splits)

text \<open>
  Where the single-period write does end the process: on a write error that is neither
  \<^verbatim>\<open>-EAGAIN\<close> nor one of the two codes xrun_recovery handles, after no recovery call.
\<close>

lemma playSamples_fatal_write:
  assumes "\<forall>f\<in>set pre. f = - EAGAIN \<or> 0 \<le> f"
      and "written pre < int_of_size_t (period_size dev)"
      and "responses (device_handle dev) = pre @ f # rest"
      and "f < 0" "f \<noteq> - EAGAIN" "f \<noteq> - EPIPE" "f \<noteq> - ESTRPIPE"
  shows "\<exists>ws. list_all is_writei ws \<and> length ws = Suc (length pre)
              \<and> AudioDevice_playSamples dev
                  = Inl (Exit EXIT_FAILURE,
                         dev\<lparr>device_handle :=
                           \<lparr>responses = rest, calls = calls (device_handle dev) @ ws\<rparr>\<rparr>)"
proof -
  let ?count = "int_of_size_t (period_size dev)"
  let ?h = "device_handle dev"
  have wpre: "0 \<le> written pre"
    using assms(1) unfolding written_def by (intro sum_list_nonneg) auto
  then have pos: "0 < ?count - written pre"
    using assms(2) by simp
  from loop_prefix[OF assms(1,2,3), of "samples dev" 0]
  obtain ws ptr' where ws:
    "playSamples_loop (samples dev) ?h 0 ?count
       = playSamples_loop (samples dev) (?h\<lparr>responses := f # rest, calls := calls ?h @ ws\<rparr>)
           ptr' (?count - written pre)"
    "length ws = length pre" "list_all is_writei ws"
    by blast
  from loop_fatal[OF pos, of "?h\<lparr>responses := f # rest, calls := calls ?h @ ws\<rparr>" f rest
      "samples dev" ptr'] assms(4-7)
  obtain w where w: "is_writei w"
    "playSamples_loop (samples dev) (?h\<lparr>responses := f # rest, calls := calls ?h @ ws\<rparr>)
           ptr' (?count - written pre)
      = Inl (Exit EXIT_FAILURE, ?h\<lparr>responses := rest, calls := calls ?h @ ws @ [w]\<rparr>)"
    by auto
  have "AudioDevice_playSamples dev
          = Inl (Exit EXIT_FAILURE,
                 dev\<lparr>device_handle := \<lparr>responses = rest, calls = calls ?h @ (ws @ [w])\<rparr>\<rparr>)"
    using ws(1) w(2) by (simp add: AudioDevice_playSamples_def)
  with ws(2,3) w(1) show ?thesis
    by (intro exI[of _ "ws @ [w]"]) simp
qed

text \<open>
  C8, as the code has it: take a single-period write whose first write results \<open>pre\<close>
  are retries (\<^verbatim>\<open>-EAGAIN\<close>) and partial writes that leave part of the period unwritten,
  and whose next write returns the underrun code \<^verbatim>\<open>-EPIPE\<close>. The call makes exactly one
  recovery attempt (one \<^verbatim>\<open>snd_pcm_prepare\<close>, and no \<^verbatim>\<open>snd_pcm_resume\<close>), makes no
  further write for this period and returns normally, whatever value \<open>r\<close> the recovery
  attempt returned; the next single-period write then proceeds, and completes when the
  hardware accepts the period. A failed recovery does not end the process: for the
  underrun code xrun_recovery returns 0 whatever \<^verbatim>\<open>snd_pcm_prepare\<close> returned.
\<close>

theorem playSamples_underrun:
  assumes "\<forall>f\<in>set pre. f = - EAGAIN \<or> 0 \<le> f"
      and "written pre < int_of_size_t (period_size dev)"
      and "responses (device_handle dev) = pre @ - EPIPE # r # rest"
  shows "(\<exists>ws. list_all is_writei ws \<and> length ws = Suc (length pre)
              \<and> AudioDevice_playSamples dev
                  = Inr (dev\<lparr>device_handle :=
                           \<lparr>responses = rest,
                            calls = calls (device_handle dev) @ ws @ [snd_pcm_prepare]\<rparr>\<rparr>)
              \<and> (\<forall>rest'. rest = int_of_size_t (period_size dev) # rest' \<longrightarrow>
                   AudioDevice_playSamples
                       (dev\<lparr>device_handle :=
                           \<lparr>responses = rest,
                            calls = calls (device_handle dev) @ ws @ [snd_pcm_prepare]\<rparr>\<rparr>)
                     = Inr (dev\<lparr>device_handle :=
                           \<lparr>responses = rest',
                            calls = calls (device_handle dev) @ ws @
                              [snd_pcm_prepare,
                               snd_pcm_writei
                                 (take (nat (int_of_size_t (period_size dev)) * channels) (samples dev))
                                 (int_of_size_t (period_size dev))]\<rparr>\<rparr>)))
         \<and> xrun_recovery h (- EPIPE) =
             (case responses h of
                [] \<Rightarrow> None
              | e # rs \<Rightarrow>
                  Some (0, h\<lparr>responses := rs, calls := calls h @ [snd_pcm_prepare]\<rparr>))"
proof (intro conjI)
  let ?count = "int_of_size_t (period_size dev)"
  let ?h = "device_handle dev"
  have wpre: "0 \<le> written pre"
    using assms(1) unfolding written_def by (intro sum_list_nonneg) auto
  then have pos: "0 < ?count - written pre" "0 < ?count"
    using assms(2) by simp_all
  from loop_prefix[OF assms(1,2,3), of "samples dev" 0]
  obtain ws ptr' where ws:
    "playSamples_loop (samples dev) ?h 0 ?count
       = playSamples_loop (samples dev)
           (?h\<lparr>responses := - EPIPE # r # rest, calls := calls ?h @ ws\<rparr>)
           ptr' (?count - written pre)"
    "length ws = length pre" "list_all is_writei ws"
    by blast
  from loop_underrun[OF pos(1),
      of "?h\<lparr>responses := - EPIPE # r # rest, calls := calls ?h @ ws\<rparr>" r rest
        "samples dev" ptr']
  obtain w where w: "is_writei w"
    "playSamples_loop (samples dev)
         (?h\<lparr>responses := - EPIPE # r # rest, calls := calls ?h @ ws\<rparr>)
         ptr' (?count - written pre)
      = Inr (?h\<lparr>responses := rest, calls := calls ?h @ ws @ [w, snd_pcm_prepare]\<rparr>)"
    by auto
  let ?ws = "ws @ [w]"
  let ?dev' = "dev\<lparr>device_handle :=
                   \<lparr>responses = rest, calls = calls ?h @ ?ws @ [snd_pcm_prepare]\<rparr>\<rparr>"
  have 1: "AudioDevice_playSamples dev = Inr ?dev'"
    using ws(1) w(2) by (simp add: AudioDevice_playSamples_def)
  have 2: "\<forall>rest'. rest = ?count # rest' \<longrightarrow>
                 AudioDevice_playSamples ?dev'
                   = Inr (dev\<lparr>device_handle :=
                         \<lparr>responses = rest',
                          calls = calls ?h @ ?ws @
                            [snd_pcm_prepare,
                             snd_pcm_writei (take (nat ?count * channels) (samples dev))
                               ?count]\<rparr>\<rparr>)"
  proof (intro allI impI)
    fix rest'
    assume r: "rest = ?count # rest'"
    show "AudioDevice_playSamples ?dev'
                   = Inr (dev\<lparr>device_handle :=
                         \<lparr>responses = rest',
                          calls = calls ?h @ ?ws @
                            [snd_pcm_prepare,
                             snd_pcm_writei (take (nat ?count * channels) (samples dev))
                               ?count]\<rparr>\<rparr>)"
      using loop_whole[OF pos(2), of "device_handle ?dev'" rest' "samples dev"] r
      by (simp add: AudioDevice_playSamples_def)
  qed
  from 1 2 ws(2,3) w(1)
  show "\<exists>ws. list_all is_writei ws \<and> length ws = Suc (length pre)
            \<and> AudioDevice_playSamples dev
                = Inr (dev\<lparr>device_handle :=
                         \<lparr>responses = rest,
                          calls = calls (device_handle dev) @ ws @ [snd_pcm_prepare]\<rparr>\<rparr>)
            \<and> (\<forall>rest'. rest = int_of_size_t (period_size dev) # rest' \<longrightarrow>
                 AudioDevice_playSamples
                     (dev\<lparr>device_handle :=
                         \<lparr>responses = rest,
                          calls = calls (device_handle dev) @ ws @ [snd_pcm_prepare]\<rparr>\<rparr>)
                   = Inr (dev\<lparr>device_handle :=
                         \<lparr>responses = rest',
                          calls = calls (device_handle dev) @ ws @
                            [snd_pcm_prepare,
                             snd_pcm_writei
                               (take (nat (int_of_size_t (period_size dev)) * channels) (samples dev))
                               (int_of_size_t (period_size dev))]\<rparr>\<rparr>))"
    by (intro exI[of _ ?ws]) simp
  show "xrun_recovery h (- EPIPE) =
             (case responses h of
                [] \<Rightarrow> None
              | e # rs \<Rightarrow>
                  Some (0, h\<lparr>responses := rs, calls := calls h @ [snd_pcm_prepare]\<rparr>))"
    by (rule xrun_recovery_underrun)
qed

text \<open>
  C8 as stated fails in its last clause: on the device with period size 2 the first
  write returns \<^verbatim>\<open>-EPIPE\<close> and the recovery attempt \<^verbatim>\<open>snd_pcm_prepare\<close> fails with \<open>-5\<close>
  (\<^verbatim>\<open>EIO\<close>). xrun_recovery returns 0 and the single-period write returns normally: the
  process is not aborted.
\<close>

theorem underrun_failed_recovery_counterexample:
  "xrun_recovery \<lparr>responses = [- 5, 2], calls = []\<rparr> (- EPIPE)
     = Some (0, \<lparr>responses = [2], calls = [snd_pcm_prepare]\<rparr>)
   \<and> AudioDevice_playSamples (small_device [- EPIPE, - 5, 2])
     = Inr ((small_device [- EPIPE, - 5, 2])
             \<lparr>device_handle :=
                \<lparr>responses = [2],
                 calls = [snd_pcm_writei [0, 0, 0, 0] 2, snd_pcm_prepare]\<rparr>\<rparr>)"
  by (simp add: xrun_recovery_def AudioDevice_playSamples_def small_device_fields
        int_of_size_t_def playSamples_loop.simps alsa_def channels_def EAGAIN_def EPIPE_def)

text \<open>
  The theorem on the device with period size 2: a partial write of one frame, a retry,
  then the underrun; recovery, and the next period is written whole. And with a partial
  write, the underrun and a recovery attempt that fails with \<open>-5\<close>: the call returns
  all the same.
\<close>

theorem playSamples_underrun_witness:
  "(\<exists>ws. list_all is_writei ws \<and> length ws = 3
      \<and> AudioDevice_playSamples (small_device [1, - EAGAIN, - EPIPE, 0, 2])
          = Inr ((small_device [1, - EAGAIN, - EPIPE, 0, 2])
                  \<lparr>device_handle := \<lparr>responses = [2], calls = ws @ [snd_pcm_prepare]\<rparr>\<rparr>)
      \<and> AudioDevice_playSamples
            ((small_device [1, - EAGAIN, - EPIPE, 0, 2])
               \<lparr>device_handle := \<lparr>responses = [2], calls = ws @ [snd_pcm_prepare]\<rparr>\<rparr>)
          = Inr ((small_device [1, - EAGAIN, - EPIPE, 0, 2])
                  \<lparr>device_handle :=
                     \<lparr>responses = [],
                      calls = ws @ [snd_pcm_prepare, snd_pcm_writei [0, 0, 0, 0] 2]\<rparr>\<rparr>))
   \<and> (\<exists>ws. list_all is_writei ws \<and> length ws = 2
      \<and> AudioDevice_playSamples (small_device [1, - EPIPE, - 5])
          = Inr ((small_device [1, - EPIPE, - 5])
                  \<lparr>device_handle := \<lparr>responses = [], calls = ws @ [snd_pcm_prepare]\<rparr>\<rparr>))"
proof -
  have two: "int_of_size_t 2 = 2"
    by (simp add: int_of_size_t_def)
  then have count: "int_of_size_t (period_size (small_device rs)) = 2" for rs
    by (simp add: small_device_fields)
  have pre: "\<forall>f\<in>set [1, - EAGAIN]. f = - EAGAIN \<or> 0 \<le> f"
    by simp
  have w: "written [1, - EAGAIN] < int_of_size_t (period_size (small_device rs))" for rs
    by (simp add: written_def count)
  have resp: "responses (device_handle (small_device [1, - EAGAIN, - EPIPE, 0, 2]))
                = [1, - EAGAIN] @ - EPIPE # 0 # [2]"
    by (simp add: small_device_fields)
  have pre1: "\<forall>f\<in>set [1]. f = - EAGAIN \<or> 0 \<le> (f::int)"
    by simp
  have w1: "written [1] < int_of_size_t (period_size (small_device rs))" for rs
    by (simp add: written_def count EAGAIN_def)
  have resp1: "responses (device_handle (small_device [1, - EPIPE, - 5]))
                = [1] @ - EPIPE # - 5 # []"
    by (simp add: small_device_fields)
  have under: "\<exists>ws. list_all is_writei ws \<and> length ws = 3
      \<and> AudioDevice_playSamples (small_device [1, - EAGAIN, - EPIPE, 0, 2])
          = Inr ((small_device [1, - EAGAIN, - EPIPE, 0, 2])
                  \<lparr>device_handle := \<lparr>responses = [2], calls = ws @ [snd_pcm_prepare]\<rparr>\<rparr>)
      \<and> AudioDevice_playSamples
            ((small_device [1, - EAGAIN, - EPIPE, 0, 2])
               \<lparr>device_handle := \<lparr>responses = [2], calls = ws @ [snd_pcm_prepare]\<rparr>\<rparr>)
          = Inr ((small_device [1, - EAGAIN, - EPIPE, 0, 2])
                  \<lparr>device_handle :=
                     \<lparr>responses = [],
                      calls = ws @ [snd_pcm_prepare, snd_pcm_writei [0, 0, 0, 0] 2]\<rparr>\<rparr>)"
    using playSamples_underrun[OF pre w resp, THEN conjunct1]
    by (simp add: small_device_fields two channels_def numeral_3_eq_3)
  have failed: "\<exists>ws. list_all is_writei ws \<and> length ws = 2
      \<and> AudioDevice_playSamples (small_device [1, - EPIPE, - 5])
          = Inr ((small_device [1, - EPIPE, - 5])
                  \<lparr>device_handle := \<lparr>responses = [], calls = ws @ [snd_pcm_prepare]\<rparr>\<rparr>)"
    using playSamples_underrun[OF pre1 w1 resp1, THEN conjunct1]
    by (auto simp add: small_device_fields numeral_2_eq_2)
  from under failed show ?thesis
    by blast
qed

lemma copy_samples_overrun:
  "i \<le> n \<Longrightarrow> length buffer < index + n \<Longrightarrow> index + i \<le> length buffer \<Longrightarrow> copy_samples buffer index n i smp = None"
proof (induction buffer index n i smp rule: copy_samples.induct)
  case (1 buffer index n i smp)
  have lt: "i < n" using 1(3,4) by simp
  show ?case
  proof (cases "index + i < length buffer \<and> i < length smp")
    case True
    then have "copy_samples buffer index n i smp
                 = copy_samples buffer index n (Suc i) (smp[i := buffer ! (index + i)])"
      using lt by (subst copy_samples.simps) simp
    also have "\<dots> = None" using 1(1)[OF lt True] lt 1(3) True by simp
    finally show ?thesis .
  next
    case False
    then show ?thesis using lt by (subst copy_samples.simps) auto
  qed
qed

lemma stereo_fields:
  "num_samples stereo_device = 128" "period_size stereo_device = 64"
  "samples stereo_device = replicate 128 0"
  "device_handle stereo_device = \<lparr>responses = [64, 64], calls = []\<rparr>"
  "length ramp = 128"
  by (simp_all add: stereo_device_def AudioDevice_new_def channels_def format_width_def Let_def
        ramp_def map_quiet)

lemma one_period:
  "AudioDevice_playSamples (stereo_device\<lparr>samples := ramp\<rparr>)
     = Inr (stereo_device\<lparr>samples := ramp,
              device_handle := \<lparr>responses = [64], calls = [snd_pcm_writei ramp 64]\<rparr>\<rparr>)"
  by (simp add: AudioDevice_playSamples_def stereo_fields int_of_size_t_def
        playSamples_loop.simps alsa_def channels_def EAGAIN_def)

text \<open>
  C10 fails on the code: on the device with period size 64 and 128 samples per period
  (two channels), with a buffer of 128 samples, play of AudioDevice.cpp copies the one
  chunk and writes once; the template of AudioDevice.hpp steps by 64, so after the same
  first write it starts a second copy at index 64, which reads 128 samples where only 64
  are left in the buffer.
\<close>

theorem play_hpp_differs:
  "length ramp = 128 \<and> num_samples stereo_device = 128 \<and> period_size stereo_device = 64
   \<and> AudioDevice_play stereo_device ramp 128
       = Inr (stereo_device\<lparr>samples := ramp,
                device_handle := \<lparr>responses = [64], calls = [snd_pcm_writei ramp 64]\<rparr>\<rparr>)
   \<and> AudioDevice_play_hpp stereo_device ramp 128
       = Inl (UndefinedBehaviour,
              stereo_device\<lparr>samples := ramp,
                device_handle := \<lparr>responses = [64], calls = [snd_pcm_writei ramp 64]\<rparr>\<rparr>)"
proof -
  have c0: "copy_samples ramp 0 128 0 (replicate 128 0) = Some ramp"
    using copy_samples_eq[of 0 128 "replicate 128 0" 0 ramp] by (simp add: stereo_fields)
  have c64: "copy_samples ramp 64 128 0 ramp = None"
    using copy_samples_overrun[of 0 128 ramp 64 ramp] by (simp add: stereo_fields)
  have cpp: "AudioDevice_play stereo_device ramp 128
       = Inr (stereo_device\<lparr>samples := ramp,
                device_handle := \<lparr>responses = [64], calls = [snd_pcm_writei ramp 64]\<rparr>\<rparr>)"
    by (simp add: AudioDevice_play_def stereo_fields play_loop.simps c0 one_period)
  have hpp: "AudioDevice_play_hpp stereo_device ramp 128
       = Inl (UndefinedBehaviour,
              stereo_device\<lparr>samples := ramp,
                device_handle := \<lparr>responses = [64], calls = [snd_pcm_writei ramp 64]\<rparr>\<rparr>)"
    by (simp add: AudioDevice_play_hpp_def stereo_fields play_loop.simps c0 c64 one_period)
  from cpp hpp show ?thesis by (simp add: stereo_fields)
qed

text \<open>
  The two versions differ by their stride only, so they agree on a device whose
  per-period sample count equals its period size (a single channel).
\<close>

lemma play_hpp_single_channel:
  "num_samples dev = period_size dev \<Longrightarrow>
   AudioDevice_play_hpp dev buffer len = AudioDevice_play dev buffer len"
  by (simp add: AudioDevice_play_hpp_def AudioDevice_play_def)


end
